theory Spec2Isabelle
  imports Main "HOL-Library.Sublist"
begin

section \<open>Station broadcast orchestrator: shared data model\<close>

text \<open>
  The audio streamer (\<^verbatim>\<open>src/audio-streamer/src/index.ts\<close>) keeps its persistent data in
  PostgreSQL tables and its broadcast state in two process-wide JavaScript maps. A table is
  a list of rows, a nullable column is an \<open>option\<close>, and a JavaScript \<^verbatim>\<open>Map\<close> is an
  association list in insertion order. Every awaited call on the database or the file system
  may throw; a handler run is given the index of the first awaited call that throws
  (\<open>None\<close>: none does), which decides the run completely because the first exception leaves
  the \<^verbatim>\<open>try\<close> block.
\<close>

type_synonym fault = "nat option"

record station_row =
  s_id :: string
  s_name :: string
  s_mount_point :: string
  s_stream_port :: "int option"
  s_source_password :: "string option"
  s_auto_dj_enabled :: "bool option"
  s_auto_dj_playlist_id :: "string option"
  s_created_by :: "string option"
  s_created_at :: nat

record dj_row =
  d_id :: string
  d_station_id :: "string option"
  d_stream_password :: string
  d_can_stream :: "bool option"
  d_is_active :: "bool option"

record playlist_row =
  p_id :: string
  p_station_id :: "string option"
  p_is_default :: "bool option"

record playlist_track_row =
  pt_playlist_id :: "string option"
  pt_track_id :: "string option"
  pt_position :: int

record track_row =
  t_id :: string
  t_file_path :: string

record database =
  audio_stations :: "station_row list"
  station_djs :: "dj_row list"
  station_playlists :: "playlist_row list"
  playlist_tracks :: "playlist_track_row list"
  audio_tracks :: "track_row list"

text \<open>JavaScript truthiness of a nullable boolean column: \<^verbatim>\<open>null\<close> and \<^verbatim>\<open>false\<close> are falsy.\<close>

definition truthy :: "bool option \<Rightarrow> bool" where
  "truthy b = (b = Some True)"

text \<open>
  A response is the status, the headers set by the handler, and the body: the text given to
  \<^verbatim>\<open>send\<close> or the object given to \<^verbatim>\<open>json\<close>.
\<close>

datatype json = JStr string | JBool bool | JNull

datatype resbody = Send string | Json "(string \<times> json) list"

record response =
  r_status :: nat
  r_headers :: "(string \<times> string) list"
  r_body :: resbody

text \<open>
  The fields of the request body that the two DJ handlers read: a string, or \<open>None\<close> for a
  field that is absent (\<^verbatim>\<open>undefined\<close>) or \<^verbatim>\<open>null\<close>, which these handlers treat alike.
\<close>

record body =
  b_mount :: "string option"
  b_user :: "string option"
  b_pass :: "string option"

section \<open>Port allocator\<close>

datatype error = DbError | NoAvailablePorts

definition BASE_STREAM_PORT :: int where
  "BASE_STREAM_PORT = 8001"

definition MAX_STREAM_PORT :: int where
  "MAX_STREAM_PORT = 8100"

text \<open>
  \<^verbatim>\<open>SELECT stream_port FROM audio_stations WHERE stream_port IS NOT NULL ORDER BY stream_port\<close>
\<close>

definition usedPorts :: "database \<Rightarrow> int list" where
  "usedPorts db = sort (List.map_filter s_stream_port (audio_stations db))"

text \<open>
  The loop \<^verbatim>\<open>for (let port = BASE_STREAM_PORT; port <= MAX_STREAM_PORT; port++)\<close>, returning the
  first port that the set of used ports does not hold, and the \<^verbatim>\<open>throw\<close> behind it.
\<close>

function scanPorts :: "int list \<Rightarrow> int \<Rightarrow> error + int" where
  "scanPorts used port =
     (if port \<le> MAX_STREAM_PORT
      then (if port \<notin> set used then Inr port else scanPorts used (port + 1))
      else Inl NoAvailablePorts)"
  by pat_completeness auto
termination
  by (relation "measure (\<lambda>(used, port). nat (MAX_STREAM_PORT + 1 - port))") auto

declare scanPorts.simps [simp del]

definition getNextAvailablePort :: "fault \<Rightarrow> database \<Rightarrow> error + int" where
  "getNextAvailablePort fault db =
     (if fault = Some 0 then Inl DbError
      else scanPorts (usedPorts db) BASE_STREAM_PORT)"

text \<open>
  The startup repair pass of \<^verbatim>\<open>main\<close>:
  \<^verbatim>\<open>UPDATE audio_stations SET stream_port = $1 WHERE id = $2\<close>.
\<close>

definition assignPort :: "string \<Rightarrow> int \<Rightarrow> database \<Rightarrow> database" where
  "assignPort sid port db =
     db\<lparr>audio_stations :=
          map (\<lambda>s. if s_id s = sid then s\<lparr>s_stream_port := Some port\<rparr> else s)
            (audio_stations db)\<rparr>"

text \<open>
  \<^verbatim>\<open>SELECT id FROM audio_stations WHERE stream_port IS NULL ORDER BY created_at\<close>
\<close>

definition stationsWithoutPort :: "database \<Rightarrow> string list" where
  "stationsWithoutPort db =
     map s_id (filter (\<lambda>s. s_stream_port s = None) (sort_key s_created_at (audio_stations db)))"

text \<open>
  The loop over the stations without a port: each gets the next available port; an
  exhausted pool ends the loop (and \<^verbatim>\<open>main\<close>) with the error, keeping the assignments made.
\<close>

fun assignPorts :: "string list \<Rightarrow> database \<Rightarrow> error option \<times> database" where
  "assignPorts [] db = (None, db)"
| "assignPorts (sid # sids) db =
     (case getNextAvailablePort None db of
        Inl e \<Rightarrow> (Some e, db)
      | Inr nextPort \<Rightarrow> assignPorts sids (assignPort sid nextPort db))"

text \<open>
  Station creation stores the allocated port with the new row
  (\<^verbatim>\<open>INSERT INTO audio_stations (..., stream_port, ...) VALUES (...)\<close>).
\<close>

definition insertStation :: "station_row \<Rightarrow> int \<Rightarrow> database \<Rightarrow> database" where
  "insertStation row port db =
     db\<lparr>audio_stations := audio_stations db @ [row\<lparr>s_stream_port := Some port\<rparr>]\<rparr>"

section \<open>Icecast source authentication\<close>

text \<open>
  The application registers \<^verbatim>\<open>express.json()\<close> beside \<^verbatim>\<open>express.urlencoded\<close>, so a field of
  the body that this endpoint destructures is absent (\<^verbatim>\<open>undefined\<close>), \<^verbatim>\<open>null\<close>, a string, or
  another value (a number, a boolean, an array, an object).
\<close>

datatype field = Absent | Null | Text string | Other

record icecast_request =
  q_mount :: field
  q_user :: field
  q_pass :: field

definition textOf :: "field \<Rightarrow> string option" where
  "textOf v = (case v of Text s \<Rightarrow> Some s | _ \<Rightarrow> None)"

text \<open>\<^verbatim>\<open>mount?.replace(/^\//, '') || ''\<close>: one leading slash is stripped.\<close>

definition stripLeadingSlash :: "string option \<Rightarrow> string" where
  "stripLeadingSlash mount =
     (case mount of
        None \<Rightarrow> ''''
      | Some m \<Rightarrow> (case m of c # cs \<Rightarrow> (if c = CHR ''/'' then cs else m) | [] \<Rightarrow> ''''))"

text \<open>
  \<^verbatim>\<open>pass === station.source_password\<close>: strict equality of the field with the column, which
  the database driver gives as a string or as \<^verbatim>\<open>null\<close>. \<^verbatim>\<open>null\<close> is strictly equal to
  \<^verbatim>\<open>null\<close>; \<^verbatim>\<open>undefined\<close> and a value that is not a string are equal to neither.
\<close>

definition strictEquals :: "field \<Rightarrow> string option \<Rightarrow> bool" where
  "strictEquals v column =
     (case v of
        Text s \<Rightarrow> column = Some s
      | Null \<Rightarrow> column = None
      | _ \<Rightarrow> False)"

definition authHeader :: "string \<Rightarrow> response" where
  "authHeader v = \<lparr>r_status = 200, r_headers = [(''icecast-auth-user'', v)], r_body = Send []\<rparr>"

text \<open>
  \<^verbatim>\<open>POST /api/audio/icecast-auth\<close>. A mount that is neither absent, \<^verbatim>\<open>null\<close> nor a string has
  no \<^verbatim>\<open>replace\<close> method, and the call throws. The only awaited call is the station lookup
  (index 0). Whatever throws, the \<^verbatim>\<open>catch\<close> block answers with the header \<^verbatim>\<open>0\<close>; so does the
  branch of the failed check, whose log line throws on a password that has no \<^verbatim>\<open>substring\<close>
  method.
\<close>

definition icecast_auth :: "string \<Rightarrow> fault \<Rightarrow> database \<Rightarrow> icecast_request \<Rightarrow> response" where
  "icecast_auth ICECAST_SOURCE_PASSWORD fault db req =
     (if q_mount req = Other then authHeader ''0''
      else
        (let mountPoint = stripLeadingSlash (textOf (q_mount req)) in
         if fault = Some 0 then authHeader ''0''
         else
           (case filter (\<lambda>s. s_mount_point s = mountPoint) (audio_stations db) of
              [] \<Rightarrow> authHeader ''0''
            | station # _ \<Rightarrow>
                (if strictEquals (q_pass req) (s_source_password station)
                    \<or> q_pass req = Text ICECAST_SOURCE_PASSWORD
                 then authHeader ''1''
                 else authHeader ''0''))))"

section \<open>Station registry: Auto DJ processes and live DJ connections\<close>

text \<open>
  A JavaScript \<^verbatim>\<open>Map\<close> keeps its entries in insertion order; \<^verbatim>\<open>set\<close> on a key that
  is present replaces the value in place, on a new key it appends.
\<close>

definition Map_get :: "('k \<times> 'v) list \<Rightarrow> 'k \<Rightarrow> 'v option" where
  "Map_get m k = map_of m k"

definition Map_has :: "('k \<times> 'v) list \<Rightarrow> 'k \<Rightarrow> bool" where
  "Map_has m k = (map_of m k \<noteq> None)"

fun Map_set :: "('k \<times> 'v) list \<Rightarrow> 'k \<Rightarrow> 'v \<Rightarrow> ('k \<times> 'v) list" where
  "Map_set [] k v = [(k, v)]"
| "Map_set ((k', v') # m) k v = (if k' = k then (k, v) # m else (k', v') # Map_set m k v)"

definition Map_delete :: "('k \<times> 'v) list \<Rightarrow> 'k \<Rightarrow> ('k \<times> 'v) list" where
  "Map_delete m k = filter (\<lambda>e. fst e \<noteq> k) m"

record live_conn =
  stationId :: string
  djId :: string

text \<open>
  A timer set with \<^verbatim>\<open>setTimeout\<close>: \<^verbatim>\<open>() => startAutoDJ(id)\<close> (after a DJ disconnect and
  at startup), or the restart of the \<^verbatim>\<open>exit\<close> handler, which reads \<^verbatim>\<open>auto_dj_enabled\<close>
  again before it calls \<^verbatim>\<open>startAutoDJ\<close>.
\<close>

datatype timer_task = StartAutoDJ string | RestartIfEnabled string

text \<open>
  The registry: \<^verbatim>\<open>autoDJProcesses\<close> (station id to the ffmpeg child process, here its
  process id), \<^verbatim>\<open>liveDJConnections\<close> (mount as Icecast sent it to station and DJ), the
  processes that were sent \<^verbatim>\<open>SIGTERM\<close>, and the timers that were set, with their delays.

  A handler run is one step on the registry. The connect handler changes the registry in
  one synchronous stretch between two awaited calls, and the disconnect, stop and exit
  handlers only remove entries. \<^verbatim>\<open>startAutoDJ\<close> reads \<^verbatim>\<open>autoDJProcesses\<close> before its
  awaited calls and writes it after them; its step stands for the moment of the write.
\<close>

record registry =
  autoDJProcesses :: "(string \<times> nat) list"
  liveDJConnections :: "(string \<times> live_conn) list"
  killed :: "nat list"
  timers :: "(nat \<times> timer_task) list"

definition emptyRegistry :: registry where
  "emptyRegistry = \<lparr>autoDJProcesses = [], liveDJConnections = [], killed = [], timers = []\<rparr>"

text \<open>
  The two facts the status endpoint reports:
  \<^verbatim>\<open>autoDJProcesses.has(id)\<close> and
  \<^verbatim>\<open>[...liveDJConnections.values()].some(c => c.stationId === id)\<close>.
\<close>

definition isRunning :: "registry \<Rightarrow> string \<Rightarrow> bool" where
  "isRunning reg sid = Map_has (autoDJProcesses reg) sid"

definition hasLiveDJ :: "registry \<Rightarrow> string \<Rightarrow> bool" where
  "hasLiveDJ reg sid = list_ex (\<lambda>e. stationId (snd e) = sid) (liveDJConnections reg)"

text \<open>Mutual exclusion for one station: not both an Auto DJ process and a live connection.\<close>

definition mutualExclusion :: "registry \<Rightarrow> string \<Rightarrow> bool" where
  "mutualExclusion reg sid = (\<not> (isRunning reg sid \<and> hasLiveDJ reg sid))"

subsection \<open>Auto DJ control\<close>

text \<open>
  The track query of \<^verbatim>\<open>startAutoDJ\<close>: the tracks of the station's playlists, joined through
  \<^verbatim>\<open>playlist_tracks\<close>, of the configured playlist when \<^verbatim>\<open>auto_dj_playlist_id\<close> is truthy
  and of the default playlists otherwise, ordered by position.
\<close>

definition tracksQuery :: "database \<Rightarrow> string \<Rightarrow> string option \<Rightarrow> track_row list" where
  "tracksQuery db sid playlistId =
     map snd (sort_key fst
       [(pt_position pt, t).
          pt \<leftarrow> playlist_tracks db, t \<leftarrow> audio_tracks db, p \<leftarrow> station_playlists db,
          pt_track_id pt = Some (t_id t), pt_playlist_id pt = Some (p_id p),
          p_station_id p = Some sid,
          (case playlistId of
             Some pl \<Rightarrow> (if pl \<noteq> [] then p_id p = pl else p_is_default p = Some True)
           | None \<Rightarrow> p_is_default p = Some True)])"

text \<open>
  \<^verbatim>\<open>startAutoDJ\<close>. Awaited calls: the station query (0), the track query (1), the writing
  of the playlist file (2), the \<^verbatim>\<open>now_playing\<close> upsert (3), which runs after the process
  is registered. \<open>pid\<close> is the process that \<^verbatim>\<open>spawn\<close> returns. The function consults
  \<^verbatim>\<open>autoDJProcesses\<close> and the station row, and never \<^verbatim>\<open>liveDJConnections\<close>.
\<close>

definition startAutoDJ :: "fault \<Rightarrow> nat \<Rightarrow> database \<Rightarrow> string \<Rightarrow> registry \<Rightarrow> registry" where
  "startAutoDJ fault pid db sid reg =
     (if Map_has (autoDJProcesses reg) sid then reg
      else if fault = Some 0 then reg
      else
        (case filter (\<lambda>s. s_id s = sid) (audio_stations db) of
           [] \<Rightarrow> reg
         | station # _ \<Rightarrow>
             if \<not> truthy (s_auto_dj_enabled station) then reg
             else if fault = Some 1 then reg
             else if tracksQuery db sid (s_auto_dj_playlist_id station) = [] then reg
             else if fault = Some 2 then reg
             else reg\<lparr>autoDJProcesses := Map_set (autoDJProcesses reg) sid pid\<rparr>))"

text \<open>\<^verbatim>\<open>stopAutoDJ\<close>: the process, when there is one, gets \<^verbatim>\<open>SIGTERM\<close> and leaves the map.\<close>

definition stopAutoDJ :: "string \<Rightarrow> registry \<Rightarrow> registry" where
  "stopAutoDJ sid reg =
     (case Map_get (autoDJProcesses reg) sid of
        None \<Rightarrow> reg
      | Some process \<Rightarrow>
          reg\<lparr>killed := killed reg @ [process],
              autoDJProcesses := Map_delete (autoDJProcesses reg) sid\<rparr>)"

text \<open>
  The \<^verbatim>\<open>exit\<close> handler of a spawned process: the station leaves \<^verbatim>\<open>autoDJProcesses\<close> and
  the restart check is set for 5000 ms later. Its two queries are not awaited and catch their
  own errors.
\<close>

definition ffmpegExit :: "string \<Rightarrow> registry \<Rightarrow> registry" where
  "ffmpegExit sid reg =
     reg\<lparr>autoDJProcesses := Map_delete (autoDJProcesses reg) sid,
         timers := timers reg @ [(5000, RestartIfEnabled sid)]\<rparr>"

text \<open>
  A timer fires. The restart check awaits one query (0, fault \<open>f\<close>); the call of
  \<^verbatim>\<open>startAutoDJ\<close> has its own awaited calls (fault \<open>g\<close>).
\<close>

fun runTimer :: "fault \<Rightarrow> fault \<Rightarrow> nat \<Rightarrow> database \<Rightarrow> timer_task \<Rightarrow> registry \<Rightarrow> registry" where
  "runTimer f g pid db (StartAutoDJ sid) reg = startAutoDJ g pid db sid reg"
| "runTimer f g pid db (RestartIfEnabled sid) reg =
     (if f = Some 0 then reg
      else
        (case filter (\<lambda>s. s_id s = sid) (audio_stations db) of
           [] \<Rightarrow> reg
         | row # _ \<Rightarrow>
             if truthy (s_auto_dj_enabled row) then startAutoDJ g pid db sid reg else reg))"

subsection \<open>Live DJ connect and disconnect\<close>

text \<open>
  The DJ query of \<^verbatim>\<open>POST /api/audio/auth/dj\<close>: active DJs that may stream, joined with their
  station, on the station's mount point and the DJ's stream password. An absent password is
  sent as \<^verbatim>\<open>NULL\<close> and matches no row.
\<close>

definition djQuery :: "database \<Rightarrow> string \<Rightarrow> string option \<Rightarrow> (dj_row \<times> station_row) list" where
  "djQuery db mountPoint pass =
     [(d, s).
        d \<leftarrow> station_djs db, s \<leftarrow> audio_stations db,
        d_station_id d = Some (s_id s), s_mount_point s = mountPoint,
        pass = Some (d_stream_password d),
        d_is_active d = Some True, d_can_stream d = Some True]"

definition sendStatus :: "nat \<Rightarrow> string \<Rightarrow> response" where
  "sendStatus code txt = \<lparr>r_status = code, r_headers = [], r_body = Send txt\<rparr>"

text \<open>
  \<^verbatim>\<open>POST /api/audio/auth/dj\<close>. \<^verbatim>\<open>mount.replace('/', '')\<close> removes the first slash and throws
  on an absent mount. Awaited calls: the DJ query (0), the \<^verbatim>\<open>last_connected\<close> update (1), the
  \<^verbatim>\<open>now_playing\<close> upsert (2); the registry is changed between (0) and (1).
\<close>

definition auth_dj :: "string \<Rightarrow> fault \<Rightarrow> database \<Rightarrow> body \<Rightarrow> registry \<Rightarrow> response \<times> registry" where
  "auth_dj ICECAST_SOURCE_PASSWORD fault db req reg =
     (case b_mount req of
        None \<Rightarrow> (sendStatus 500 ''Error'', reg)
      | Some mount \<Rightarrow>
          if fault = Some 0 then (sendStatus 500 ''Error'', reg)
          else
            (case djQuery db (remove1 CHR ''/'' mount) (b_pass req) of
               [] \<Rightarrow>
                 if b_pass req = Some ICECAST_SOURCE_PASSWORD then (sendStatus 200 ''OK'', reg)
                 else (sendStatus 401 ''Unauthorized'', reg)
             | dj # _ \<Rightarrow>
                 (let reg1 = (if truthy (s_auto_dj_enabled (snd dj))
                              then stopAutoDJ (s_id (snd dj)) reg else reg);
                      reg2 = reg1\<lparr>liveDJConnections :=
                               Map_set (liveDJConnections reg1) mount
                                 \<lparr>stationId = s_id (snd dj), djId = d_id (fst dj)\<rparr>\<rparr>
                  in if fault = Some 1 \<or> fault = Some 2 then (sendStatus 500 ''Error'', reg2)
                     else (sendStatus 200 ''OK'', reg2))))"

text \<open>
  \<^verbatim>\<open>POST /api/audio/auth/dj-disconnect\<close>. Awaited calls: the \<^verbatim>\<open>now_playing\<close> delete (0) and
  the \<^verbatim>\<open>auto_dj_enabled\<close> query (1), both after the connection left the map.
\<close>

definition dj_disconnect :: "fault \<Rightarrow> database \<Rightarrow> body \<Rightarrow> registry \<Rightarrow> response \<times> registry" where
  "dj_disconnect fault db req reg =
     (case (case b_mount req of None \<Rightarrow> None | Some mount \<Rightarrow>
              map_option (Pair mount) (Map_get (liveDJConnections reg) mount)) of
        None \<Rightarrow> (sendStatus 200 ''OK'', reg)
      | Some (mount, connection) \<Rightarrow>
          (let reg1 = reg\<lparr>liveDJConnections := Map_delete (liveDJConnections reg) mount\<rparr> in
           if fault = Some 0 \<or> fault = Some 1 then (sendStatus 500 ''Error'', reg1)
           else
             (case filter (\<lambda>s. s_id s = stationId connection) (audio_stations db) of
                [] \<Rightarrow> (sendStatus 200 ''OK'', reg1)
              | row # _ \<Rightarrow>
                  if truthy (s_auto_dj_enabled row)
                  then (sendStatus 200 ''OK'',
                        reg1\<lparr>timers := timers reg1 @ [(2000, StartAutoDJ (stationId connection))]\<rparr>)
                  else (sendStatus 200 ''OK'', reg1))))"

subsection \<open>Stopping a station's broadcast\<close>

text \<open>\<^verbatim>\<open>checkStationAccess\<close>: an admin reaches every station, a user the stations they created.\<close>

definition checkStationAccess :: "database \<Rightarrow> string \<Rightarrow> string \<Rightarrow> string \<Rightarrow> station_row option" where
  "checkStationAccess db sid userId userRole =
     (case (if userRole = ''admin''
            then filter (\<lambda>s. s_id s = sid) (audio_stations db)
            else filter (\<lambda>s. s_id s = sid \<and> s_created_by s = Some userId) (audio_stations db)) of
        [] \<Rightarrow> None
      | row # _ \<Rightarrow> Some row)"

text \<open>
  \<^verbatim>\<open>POST /api/audio/stations/:id/stop\<close>, behind the authentication middleware. Awaited calls:
  the access check (0), the mount query (1), the \<^verbatim>\<open>now_playing\<close> delete (2);
  \<^verbatim>\<open>killIcecastMount\<close> catches its own errors.
\<close>

definition station_stop :: "fault \<Rightarrow> database \<Rightarrow> string \<Rightarrow> string \<Rightarrow> string \<Rightarrow> registry \<Rightarrow> response \<times> registry" where
  "station_stop fault db userId userRole sid reg =
     (let failed = \<lparr>r_status = 500, r_headers = [],
                     r_body = Json [(''error'', JStr ''Failed to stop station'')]\<rparr> in
      if fault = Some 0 then (failed, reg)
      else
        (case checkStationAccess db sid userId userRole of
           None \<Rightarrow> (\<lparr>r_status = 404, r_headers = [],
                      r_body = Json [(''error'', JStr ''Station not found'')]\<rparr>, reg)
         | Some station \<Rightarrow>
             (let reg1 = stopAutoDJ sid reg in
              if fault = Some 1 then (failed, reg1)
              else
                (let reg2 = reg1\<lparr>liveDJConnections :=
                              filter (\<lambda>e. stationId (snd e) \<noteq> sid) (liveDJConnections reg1)\<rparr> in
                 if fault = Some 2 then (failed, reg2)
                 else (\<lparr>r_status = 200, r_headers = [],
                        r_body = Json [(''message'', JStr ''Station stopped''),
                                       (''success'', JBool True)]\<rparr>, reg2)))))"


section \<open>State reconciler\<close>

text \<open>
  The stream synchroniser (\<^verbatim>\<open>src/unnamed/part_000\<close>) polls the origin's stream list and
  keeps \<^verbatim>\<open>knownActiveStreams\<close>, a JavaScript \<^verbatim>\<open>Set\<close>: a list without repetition, in
  insertion order. Cycles run one after another.
\<close>

definition Set_has :: "'a list \<Rightarrow> 'a \<Rightarrow> bool" where
  "Set_has xs x = (x \<in> set xs)"

definition Set_add :: "'a list \<Rightarrow> 'a \<Rightarrow> 'a list" where
  "Set_add xs x = (if x \<in> set xs then xs else xs @ [x])"

definition Set_delete :: "'a list \<Rightarrow> 'a \<Rightarrow> 'a list" where
  "Set_delete xs x = filter (\<lambda>y. y \<noteq> x) xs"

definition new_Set :: "'a list \<Rightarrow> 'a list" where
  "new_Set xs = foldl Set_add [] xs"

text \<open>\<^verbatim>\<open>s.replace(pattern, replacement)\<close> with a string pattern replaces its first occurrence.\<close>

fun replace :: "string \<Rightarrow> string \<Rightarrow> string \<Rightarrow> string" where
  "replace pat rep [] = (if pat = [] then rep else [])"
| "replace pat rep (c # cs) =
     (if prefix pat (c # cs) then rep @ drop (length pat) (c # cs)
      else c # replace pat rep cs)"

text \<open>A stream of the origin's reply: its name, and \<^verbatim>\<open>publish?.active\<close> (absent: falsy).\<close>

record srs_stream =
  srs_name :: string
  srs_publish_active :: "bool option"

text \<open>
  What \<^verbatim>\<open>fetch\<close> and the decoding of its reply give: the request throws, the response is
  not OK, the decoding of the body or of its stream list throws, or a reply with its code
  and streams.
\<close>

datatype fetched = FetchThrows | ResponseNotOk | DecodeThrows | SrsReply int "srs_stream list"

record stream_row =
  st_id :: string
  st_user_id :: string
  st_title :: string
  st_stream_key :: string
  st_status :: "string option"
  st_actual_start :: "nat option"
  st_actual_end :: "nat option"
  st_updated_at :: "nat option"
  st_recording_enabled :: "bool option"

record stream_state =
  ss_id :: string
  ss_status :: string
  ss_startTime :: nat
  ss_recordingEnabled :: "bool option"

text \<open>
  The world of the synchroniser: the \<^verbatim>\<open>streams\<close> table, the current-state records kept
  through \<^verbatim>\<open>setStreamState\<close>, the notifications published so far (oldest first, topic and
  payload), and \<^verbatim>\<open>knownActiveStreams\<close>.
\<close>

record world =
  streams :: "stream_row list"
  streamStates :: "(string \<times> stream_state) list"
  published :: "(string \<times> (string \<times> json) list) list"
  knownActiveStreams :: "string list"

text \<open>
  What one handler call meets: the index of its first awaited call that throws, the
  database's \<^verbatim>\<open>NOW()\<close> and the clock read by \<^verbatim>\<open>new Date()\<close>.
\<close>

record call_env =
  e_fault :: fault
  e_sql_now :: nat
  e_js_now :: nat

text \<open>
  Modelled from the spec: \<^verbatim>\<open>publish\<close> and \<^verbatim>\<open>setStreamState\<close> are imported from a module
  that is not among the sources. The notification bus takes \<open>publish(topic, payload)\<close> and
  hands it on; the current-state record is one value per stream key, overwritten on every
  transition and cleared by a null value.
\<close>

definition publish :: "string \<Rightarrow> (string \<times> json) list \<Rightarrow> world \<Rightarrow> world" where
  "publish topic payload w = w\<lparr>published := published w @ [(topic, payload)]\<rparr>"

definition setStreamState :: "string \<Rightarrow> stream_state option \<Rightarrow> world \<Rightarrow> world" where
  "setStreamState streamKey state w =
     (case state of
        None \<Rightarrow> w\<lparr>streamStates := Map_delete (streamStates w) streamKey\<rparr>
      | Some v \<Rightarrow> w\<lparr>streamStates := Map_set (streamStates w) streamKey v\<rparr>)"

definition jsBool :: "bool option \<Rightarrow> json" where
  "jsBool b = (case b of None \<Rightarrow> JNull | Some v \<Rightarrow> JBool v)"

text \<open>
  The rows that the \<^verbatim>\<open>UPDATE\<close> of \<^verbatim>\<open>handleStreamStart\<close> reaches:
  \<^verbatim>\<open>WHERE stream_key = $1 AND status != 'live'\<close>; a \<^verbatim>\<open>NULL\<close> status compares to
  \<^verbatim>\<open>NULL\<close> and is not reached.
\<close>

definition startMatches :: "string \<Rightarrow> stream_row \<Rightarrow> bool" where
  "startMatches streamKey r =
     (st_stream_key r = streamKey \<and>
      (case st_status r of None \<Rightarrow> False | Some s \<Rightarrow> s \<noteq> ''live''))"

text \<open>
  \<^verbatim>\<open>SET status = 'live', actual_start = COALESCE(actual_start, NOW()), updated_at = NOW()\<close>
\<close>

definition markLive :: "nat \<Rightarrow> stream_row \<Rightarrow> stream_row" where
  "markLive now r =
     r\<lparr>st_status := Some ''live'',
       st_actual_start := Some (case st_actual_start r of None \<Rightarrow> now | Some t \<Rightarrow> t),
       st_updated_at := Some now\<rparr>"

text \<open>
  \<^verbatim>\<open>handleStreamStart\<close>. Awaited calls: the update (0), \<^verbatim>\<open>setStreamState\<close> (1), the
  publishing of \<^verbatim>\<open>stream:start\<close> (2) and of \<^verbatim>\<open>recording:start\<close> (3). An exception is caught
  and logged; what was done before it stays done.
\<close>

definition handleStreamStart :: "call_env \<Rightarrow> string \<Rightarrow> world \<Rightarrow> world" where
  "handleStreamStart env streamKey w =
     (if e_fault env = Some 0 then w
      else
        (let w1 = w\<lparr>streams :=
                     map (\<lambda>r. if startMatches streamKey r then markLive (e_sql_now env) r else r)
                       (streams w)\<rparr>
         in case filter (startMatches streamKey) (streams w) of
              [] \<Rightarrow> w1
            | stream # _ \<Rightarrow>
                if e_fault env = Some 1 then w1
                else
                  (let w2 = setStreamState streamKey
                              (Some \<lparr>ss_id = st_id stream, ss_status = ''live'',
                                     ss_startTime = e_js_now env,
                                     ss_recordingEnabled = st_recording_enabled stream\<rparr>) w1
                   in if e_fault env = Some 2 then w2
                      else
                        (let w3 = publish ''stream:start''
                                    [(''streamId'', JStr (st_id stream)),
                                     (''streamKey'', JStr streamKey),
                                     (''userId'', JStr (st_user_id stream)),
                                     (''recordingEnabled'', jsBool (st_recording_enabled stream))] w2
                         in if truthy (st_recording_enabled stream)
                            then (if e_fault env = Some 3 then w3
                                  else publish ''recording:start''
                                         [(''streamId'', JStr (st_id stream)),
                                          (''streamKey'', JStr streamKey),
                                          (''userId'', JStr (st_user_id stream)),
                                          (''title'', JStr (st_title stream))] w3)
                            else w3))))"

text \<open>
  The rows that the \<^verbatim>\<open>UPDATE\<close> of \<^verbatim>\<open>handleStreamEnd\<close> reaches:
  \<^verbatim>\<open>WHERE stream_key = $1 AND status = 'live'\<close>, and what it sets:
  \<^verbatim>\<open>status = 'ended', actual_end = NOW(), updated_at = NOW()\<close>.
\<close>

definition endMatches :: "string \<Rightarrow> stream_row \<Rightarrow> bool" where
  "endMatches streamKey r = (st_stream_key r = streamKey \<and> st_status r = Some ''live'')"

definition markEnded :: "nat \<Rightarrow> stream_row \<Rightarrow> stream_row" where
  "markEnded now r =
     r\<lparr>st_status := Some ''ended'', st_actual_end := Some now, st_updated_at := Some now\<rparr>"

text \<open>
  \<^verbatim>\<open>handleStreamEnd\<close>. Awaited calls: the update (0), the publishing of \<^verbatim>\<open>recording:stop\<close>
  (1), \<^verbatim>\<open>setStreamState\<close> with null (2), the publishing of \<^verbatim>\<open>stream:stop\<close> (3). The update
  returns the id only; \<^verbatim>\<open>recording:stop\<close> is published for every stream that ended.
\<close>

definition handleStreamEnd :: "call_env \<Rightarrow> string \<Rightarrow> world \<Rightarrow> world" where
  "handleStreamEnd env streamKey w =
     (if e_fault env = Some 0 then w
      else
        (let w1 = w\<lparr>streams :=
                     map (\<lambda>r. if endMatches streamKey r then markEnded (e_sql_now env) r else r)
                       (streams w)\<rparr>
         in case filter (endMatches streamKey) (streams w) of
              [] \<Rightarrow> w1
            | row # _ \<Rightarrow>
                if e_fault env = Some 1 then w1
                else
                  (let w2 = publish ''recording:stop''
                              [(''streamId'', JStr (st_id row)), (''streamKey'', JStr streamKey)] w1
                   in if e_fault env = Some 2 then w2
                      else
                        (let w3 = setStreamState streamKey None w2
                         in if e_fault env = Some 3 then w3
                            else publish ''stream:stop''
                                   [(''streamId'', JStr (st_id row)),
                                    (''streamKey'', JStr streamKey)] w3))))"

text \<open>
  The keys of the streams that publish:
  \<^verbatim>\<open>new Set(data.streams.filter(s => s.publish?.active).map(s => s.name.replace(".m3u8", "")))\<close>
\<close>

definition activeStreamKeys :: "srs_stream list \<Rightarrow> string list" where
  "activeStreamKeys ss =
     new_Set (map (\<lambda>s. replace ''.m3u8'' [] (srs_name s))
                (filter (\<lambda>s. truthy (srs_publish_active s)) ss))"

text \<open>
  The first loop of \<^verbatim>\<open>syncStreamStatus\<close>, over the active keys: a key that is not known is
  started and then added. \<open>io\<close> gives what the handler call for a key meets.
\<close>

fun startLoop :: "(string \<Rightarrow> call_env) \<Rightarrow> string list \<Rightarrow> world \<Rightarrow> world" where
  "startLoop io [] w = w"
| "startLoop io (streamKey # rest) w =
     (if \<not> Set_has (knownActiveStreams w) streamKey
      then (let w1 = handleStreamStart (io streamKey) streamKey w
            in startLoop io rest
                 (w1\<lparr>knownActiveStreams := Set_add (knownActiveStreams w1) streamKey\<rparr>))
      else startLoop io rest w)"

text \<open>
  The second loop, over the known keys as they stand when it begins (the loop deletes only
  the key it is at, which a \<^verbatim>\<open>Set\<close> iterator allows): a key that is no longer active is
  ended and then deleted.
\<close>

fun endLoop :: "(string \<Rightarrow> call_env) \<Rightarrow> string list \<Rightarrow> string list \<Rightarrow> world \<Rightarrow> world" where
  "endLoop io active [] w = w"
| "endLoop io active (streamKey # rest) w =
     (if \<not> Set_has active streamKey
      then (let w1 = handleStreamEnd (io streamKey) streamKey w
            in endLoop io active rest
                 (w1\<lparr>knownActiveStreams := Set_delete (knownActiveStreams w1) streamKey\<rparr>))
      else endLoop io active rest w)"

text \<open>
  \<^verbatim>\<open>syncStreamStatus\<close>: one reconciliation cycle. A request that throws, a response that is
  not OK and a reply whose code is not 0 return before either loop.
\<close>

definition syncStreamStatus :: "(string \<Rightarrow> call_env) \<Rightarrow> fetched \<Rightarrow> world \<Rightarrow> world" where
  "syncStreamStatus io response w =
     (case response of
        FetchThrows \<Rightarrow> w
      | ResponseNotOk \<Rightarrow> w
      | DecodeThrows \<Rightarrow> w
      | SrsReply code data_streams \<Rightarrow>
          if code \<noteq> 0 then w
          else
            (let active = activeStreamKeys data_streams;
                 w1 = startLoop io active w
             in endLoop io active (knownActiveStreams w1) w1))"


section \<open>Properties of rows, and sample data\<close>


text \<open>
  A small installation: the station \<open>st-1\<close> on the mount \<open>jazz-fm\<close> with Auto DJ enabled, one
  DJ and a default playlist of one track; the station \<open>st-2\<close> with a default playlist and
  no DJ; a third station without a port. The second database is the first after the
  settings of \<open>st-1\<close> were saved with Auto DJ disabled.
\<close>

definition exStation :: station_row where
  "exStation =
     \<lparr>s_id = ''st-1'', s_name = ''Jazz FM'', s_mount_point = ''jazz-fm'',
      s_stream_port = Some 8001, s_source_password = Some ''cmc_a1b2c3d4e5f6'',
      s_auto_dj_enabled = Some True, s_auto_dj_playlist_id = None,
      s_created_by = Some ''u-1'', s_created_at = 1\<rparr>"

definition exDb :: database where
  "exDb =
     \<lparr>audio_stations =
        [exStation,
         exStation\<lparr>s_id := ''st-2'', s_name := ''Rock'', s_mount_point := ''rock'',
                   s_stream_port := Some 8003, s_created_at := 2\<rparr>,
         exStation\<lparr>s_id := ''st-3'', s_name := ''Talk'', s_mount_point := ''talk'',
                   s_stream_port := None, s_created_at := 3\<rparr>],
      station_djs =
        [\<lparr>d_id = ''dj-1'', d_station_id = Some ''st-1'', d_stream_password = ''djsecret'',
          d_can_stream = Some True, d_is_active = Some True\<rparr>],
      station_playlists =
        [\<lparr>p_id = ''pl-1'', p_station_id = Some ''st-1'', p_is_default = Some True\<rparr>,
         \<lparr>p_id = ''pl-2'', p_station_id = Some ''st-2'', p_is_default = Some True\<rparr>],
      playlist_tracks =
        [\<lparr>pt_playlist_id = Some ''pl-1'', pt_track_id = Some ''t-1'', pt_position = 1\<rparr>,
         \<lparr>pt_playlist_id = Some ''pl-2'', pt_track_id = Some ''t-1'', pt_position = 1\<rparr>],
      audio_tracks = [\<lparr>t_id = ''t-1'', t_file_path = ''/storage/audio/library/a.mp3''\<rparr>]\<rparr>"

definition exDbDisabled :: database where
  "exDbDisabled =
     exDb\<lparr>audio_stations :=
            map (\<lambda>s. if s_id s = ''st-1'' then s\<lparr>s_auto_dj_enabled := Some False\<rparr> else s)
              (audio_stations exDb)\<rparr>"

text \<open>Requests on the mount: a DJ's connect, the source password's connect, a disconnect.\<close>

definition exDjConnect :: body where
  "exDjConnect = \<lparr>b_mount = Some ''/jazz-fm'', b_user = Some ''source'', b_pass = Some ''djsecret''\<rparr>"

definition exSourceConnect :: body where
  "exSourceConnect =
     \<lparr>b_mount = Some ''/jazz-fm'', b_user = Some ''source'', b_pass = Some ''streaming_source_123''\<rparr>"

definition exDisconnect :: body where
  "exDisconnect = \<lparr>b_mount = Some ''/jazz-fm'', b_user = None, b_pass = None\<rparr>"

text \<open>
  The same source connect as the Icecast endpoint sees it, and a JSON body on the mount
  \<open>talk\<close> whose password is \<^verbatim>\<open>null\<close>; the third database is the first with no source password
  stored for the station of that mount.
\<close>

definition exSourceAuth :: icecast_request where
  "exSourceAuth =
     \<lparr>q_mount = Text ''/jazz-fm'', q_user = Text ''source'',
      q_pass = Text ''streaming_source_123''\<rparr>"

definition exNullAuth :: icecast_request where
  "exNullAuth = \<lparr>q_mount = Text ''/talk'', q_user = Text ''source'', q_pass = Null\<rparr>"

definition exDbNoPassword :: database where
  "exDbNoPassword =
     exDb\<lparr>audio_stations :=
            map (\<lambda>s. if s_id s = ''st-3'' then s\<lparr>s_source_password := None\<rparr> else s)
              (audio_stations exDb)\<rparr>"

text \<open>The registry with the Auto DJ of \<open>st-1\<close> running, and the one with its DJ connected.\<close>

definition exRunning :: registry where
  "exRunning = emptyRegistry\<lparr>autoDJProcesses := [(''st-1'', 4242)]\<rparr>"

definition exLive :: registry where
  "exLive =
     emptyRegistry\<lparr>liveDJConnections := [(''/jazz-fm'', \<lparr>stationId = ''st-1'', djId = ''dj-1''\<rparr>)]\<rparr>"

text \<open>
  A stream that is scheduled and does not record, the same stream live since time 100, and
  the origin's replies with the stream publishing and with no stream.
\<close>

definition exStream :: stream_row where
  "exStream =
     \<lparr>st_id = ''42'', st_user_id = ''u-1'', st_title = ''Morning show'', st_stream_key = ''abc'',
      st_status = Some ''scheduled'', st_actual_start = None, st_actual_end = None,
      st_updated_at = None, st_recording_enabled = Some False\<rparr>"

definition exWorld :: world where
  "exWorld = \<lparr>streams = [exStream], streamStates = [], published = [], knownActiveStreams = []\<rparr>"

definition exLiveWorld :: world where
  "exLiveWorld =
     \<lparr>streams = [exStream\<lparr>st_status := Some ''live'', st_actual_start := Some 100,
                          st_updated_at := Some 100\<rparr>],
      streamStates = [(''abc'', \<lparr>ss_id = ''42'', ss_status = ''live'', ss_startTime = 100,
                                ss_recordingEnabled = Some False\<rparr>)],
      published = [], knownActiveStreams = [''abc'']\<rparr>"

definition exEnv :: "nat \<Rightarrow> string \<Rightarrow> call_env" where
  "exEnv now streamKey = \<lparr>e_fault = None, e_sql_now = now, e_js_now = now\<rparr>"

definition exReply :: fetched where
  "exReply = SrsReply 0 [\<lparr>srs_name = ''abc.m3u8'', srs_publish_active = Some True\<rparr>]"


text \<open>An installation whose hundred stations hold the hundred ports of the pool.\<close>

definition exFullDb :: database where
  "exFullDb =
     exDb\<lparr>audio_stations :=
            map (\<lambda>p. exStation\<lparr>s_id := replicate (nat (p - 8000)) CHR ''s'',
                                s_mount_point := replicate (nat (p - 8000)) CHR ''m'',
                                s_stream_port := Some p\<rparr>)
              [BASE_STREAM_PORT..MAX_STREAM_PORT]\<rparr>"

section \<open>Port allocation\<close>

lemma scanPorts_Inr:
  "scanPorts used port = Inr q \<Longrightarrow>
     port \<le> q \<and> q \<le> MAX_STREAM_PORT \<and> q \<notin> set used
       \<and> (\<forall>r. port \<le> r \<and> r < q \<longrightarrow> r \<in> set used)"
proof (induction used port rule: scanPorts.induct)
  case (1 used port)
  show ?case
  proof (cases "port \<le> MAX_STREAM_PORT \<and> port \<in> set used")
    case True
    with "1.prems" have "scanPorts used (port + 1) = Inr q"
      by (simp add: scanPorts.simps [of used port])
    with "1.IH" True have ih: "port + 1 \<le> q \<and> q \<le> MAX_STREAM_PORT \<and> q \<notin> set used
        \<and> (\<forall>r. port + 1 \<le> r \<and> r < q \<longrightarrow> r \<in> set used)"
      by simp
    have "\<And>r. port \<le> r \<Longrightarrow> r < q \<Longrightarrow> r \<in> set used"
    proof -
      fix r assume "port \<le> r" "r < q"
      then consider "r = port" | "port + 1 \<le> r" by linarith
      then show "r \<in> set used" using True ih \<open>r < q\<close> by cases auto
    qed
    with ih show ?thesis by auto
  next
    case False
    with "1.prems" show ?thesis
      by (auto simp: scanPorts.simps [of used port] split: if_splits)
  qed
qed

lemma scanPorts_Inl:
  "scanPorts used port = Inl e \<Longrightarrow>
     e = NoAvailablePorts \<and> (\<forall>r. port \<le> r \<and> r \<le> MAX_STREAM_PORT \<longrightarrow> r \<in> set used)"
proof (induction used port rule: scanPorts.induct)
  case (1 used port)
  show ?case
  proof (cases "port \<le> MAX_STREAM_PORT")
    case True
    with "1.prems" have inused: "port \<in> set used"
      and rec: "scanPorts used (port + 1) = Inl e"
      by (auto simp: scanPorts.simps [of used port] split: if_splits)
    with "1.IH" True have ih: "e = NoAvailablePorts
        \<and> (\<forall>r. port + 1 \<le> r \<and> r \<le> MAX_STREAM_PORT \<longrightarrow> r \<in> set used)"
      by simp
    have "\<And>r. port \<le> r \<Longrightarrow> r \<le> MAX_STREAM_PORT \<Longrightarrow> r \<in> set used"
    proof -
      fix r assume "port \<le> r" "r \<le> MAX_STREAM_PORT"
      then consider "r = port" | "port + 1 \<le> r" by linarith
      then show "r \<in> set used" using inused ih \<open>r \<le> MAX_STREAM_PORT\<close> by cases auto
    qed
    with ih show ?thesis by auto
  next
    case False
    with "1.prems" show ?thesis
      by (auto simp: scanPorts.simps [of used port])
  qed
qed

lemma scanPorts_lowest:
  "scanPorts used BASE_STREAM_PORT = Inr p \<longleftrightarrow>
     BASE_STREAM_PORT \<le> p \<and> p \<le> MAX_STREAM_PORT \<and> p \<notin> set used
       \<and> (\<forall>q. BASE_STREAM_PORT \<le> q \<and> q < p \<longrightarrow> q \<in> set used)"
proof
  assume "scanPorts used BASE_STREAM_PORT = Inr p"
  then show "BASE_STREAM_PORT \<le> p \<and> p \<le> MAX_STREAM_PORT \<and> p \<notin> set used
       \<and> (\<forall>q. BASE_STREAM_PORT \<le> q \<and> q < p \<longrightarrow> q \<in> set used)"
    by (rule scanPorts_Inr)
next
  assume r: "BASE_STREAM_PORT \<le> p \<and> p \<le> MAX_STREAM_PORT \<and> p \<notin> set used
       \<and> (\<forall>q. BASE_STREAM_PORT \<le> q \<and> q < p \<longrightarrow> q \<in> set used)"
  show "scanPorts used BASE_STREAM_PORT = Inr p"
  proof (cases "scanPorts used BASE_STREAM_PORT")
    case (Inl e)
    from scanPorts_Inl [OF Inl] r show ?thesis by blast
  next
    case (Inr q)
    from scanPorts_Inr [OF Inr] r have "q = p"
      by (meson linorder_neqE_linordered_idom order_less_imp_le)
    with Inr show ?thesis by simp
  qed
qed

lemma scanPorts_exhausted:
  "scanPorts used BASE_STREAM_PORT = Inl NoAvailablePorts \<longleftrightarrow>
     (\<forall>q. BASE_STREAM_PORT \<le> q \<and> q \<le> MAX_STREAM_PORT \<longrightarrow> q \<in> set used)"
proof
  assume "scanPorts used BASE_STREAM_PORT = Inl NoAvailablePorts"
  then show "\<forall>q. BASE_STREAM_PORT \<le> q \<and> q \<le> MAX_STREAM_PORT \<longrightarrow> q \<in> set used"
    using scanPorts_Inl by blast
next
  assume a: "\<forall>q. BASE_STREAM_PORT \<le> q \<and> q \<le> MAX_STREAM_PORT \<longrightarrow> q \<in> set used"
  show "scanPorts used BASE_STREAM_PORT = Inl NoAvailablePorts"
  proof (cases "scanPorts used BASE_STREAM_PORT")
    case (Inl e)
    with scanPorts_Inl [OF Inl] show ?thesis by simp
  next
    case (Inr q)
    from scanPorts_Inr [OF Inr] a show ?thesis by blast
  qed
qed

lemma leased_insertStation:
  "List.map_filter s_stream_port (audio_stations (insertStation row p db)) =
     List.map_filter s_stream_port (audio_stations db) @ [p]"
  by (simp add: insertStation_def map_filter_def)

text \<open>
  The update reaches one row at most when the ids are distinct (the primary key), so a
  port that no row holds stays the port of one row.
\<close>

lemma leased_assignPort:
  "distinct (map s_id rows) \<Longrightarrow> p \<notin> set (List.map_filter s_stream_port rows) \<Longrightarrow>
   distinct (List.map_filter s_stream_port rows) \<Longrightarrow>
   distinct (List.map_filter s_stream_port
      (map (\<lambda>s. if s_id s = sid then s\<lparr>s_stream_port := Some p\<rparr> else s) rows))"
proof (induction rows)
  case Nil
  then show ?case by simp
next
  case (Cons r rows)
  show ?case
  proof (cases "s_id r = sid")
    case True
    with Cons.prems have "sid \<notin> s_id ` set rows" by auto
    then have same:
      "map (\<lambda>s. if s_id s = sid then s\<lparr>s_stream_port := Some p\<rparr> else s) rows = rows"
      by (induction rows) auto
    from Cons.prems have "p \<notin> set (List.map_filter s_stream_port rows)"
      and "distinct (List.map_filter s_stream_port rows)"
      by (auto split: option.splits)
    with True same show ?thesis by simp
  next
    case False
    from Cons.prems have a: "distinct (map s_id rows)"
      and b: "p \<notin> set (List.map_filter s_stream_port rows)"
      and c: "distinct (List.map_filter s_stream_port rows)"
      by (auto split: option.splits)
    note ih = Cons.IH [OF a b c]
    have sub: "set (List.map_filter s_stream_port
        (map (\<lambda>s. if s_id s = sid then s\<lparr>s_stream_port := Some p\<rparr> else s) rows))
        \<subseteq> insert p (set (List.map_filter s_stream_port rows))"
      by (auto simp: map_filter_def split: if_splits)
    show ?thesis
    proof (cases "s_stream_port r")
      case None
      with False ih show ?thesis by simp
    next
      case (Some q)
      with Cons.prems have "q \<noteq> p" "q \<notin> set (List.map_filter s_stream_port rows)"
        by auto
      with sub have "q \<notin> set (List.map_filter s_stream_port
        (map (\<lambda>s. if s_id s = sid then s\<lparr>s_stream_port := Some p\<rparr> else s) rows))"
        by auto
      with False Some ih show ?thesis by simp
    qed
  qed
qed

lemma assignPort_ids:
  "map s_id (audio_stations (assignPort sid p db)) = map s_id (audio_stations db)"
  by (simp add: assignPort_def comp_def)

lemma assignPort_distinct:
  "distinct (map s_id (audio_stations db)) \<Longrightarrow> distinct (usedPorts db) \<Longrightarrow>
   p \<notin> set (usedPorts db) \<Longrightarrow> distinct (usedPorts (assignPort sid p db))"
  using leased_assignPort [of "audio_stations db" p sid]
  by (simp add: usedPorts_def assignPort_def)

lemma assignPorts_distinct:
  "distinct (map s_id (audio_stations db)) \<Longrightarrow> distinct (usedPorts db) \<Longrightarrow>
   distinct (usedPorts (snd (assignPorts sids db)))"
proof (induction sids arbitrary: db)
  case Nil
  then show ?case by simp
next
  case (Cons sid sids)
  show ?case
  proof (cases "getNextAvailablePort None db")
    case (Inl e)
    with Cons.prems show ?thesis by simp
  next
    case (Inr p)
    then have "p \<notin> set (usedPorts db)"
      by (simp add: getNextAvailablePort_def scanPorts_lowest)
    with Cons.prems have "distinct (usedPorts (assignPort sid p db))"
      by (simp add: assignPort_distinct)
    moreover from Cons.prems have "distinct (map s_id (audio_stations (assignPort sid p db)))"
      by (simp add: assignPort_ids)
    ultimately show ?thesis using Inr Cons.IH by simp
  qed
qed

text \<open>
  C4. \<^verbatim>\<open>getNextAvailablePort\<close> returns a port \<open>p\<close> exactly when its query succeeds and \<open>p\<close> is
  the smallest port of the pool from \<^verbatim>\<open>BASE_STREAM_PORT\<close> to \<^verbatim>\<open>MAX_STREAM_PORT\<close> that no
  station holds; it fails with the error \<^verbatim>\<open>No available ports for new station\<close> exactly
  when its query succeeds and every port of the pool is held. Ports that were unique stay
  unique when the returned port is stored with a new station, and through the startup pass
  that gives every station without a port the next available one.
\<close>

theorem getNextAvailablePort_lowest_free:
  "(getNextAvailablePort fault db = Inr p \<longleftrightarrow>
      fault \<noteq> Some 0 \<and> BASE_STREAM_PORT \<le> p \<and> p \<le> MAX_STREAM_PORT
        \<and> p \<notin> set (usedPorts db)
        \<and> (\<forall>q. BASE_STREAM_PORT \<le> q \<and> q < p \<longrightarrow> q \<in> set (usedPorts db)))
   \<and> (getNextAvailablePort fault db = Inl NoAvailablePorts \<longleftrightarrow>
      fault \<noteq> Some 0
        \<and> (\<forall>q. BASE_STREAM_PORT \<le> q \<and> q \<le> MAX_STREAM_PORT \<longrightarrow> q \<in> set (usedPorts db)))
   \<and> (getNextAvailablePort fault db = Inr p \<and> distinct (usedPorts db) \<longrightarrow>
        distinct (usedPorts (insertStation row p db)))
   \<and> (distinct (map s_id (audio_stations db)) \<and> distinct (usedPorts db) \<longrightarrow>
        distinct (usedPorts (snd (assignPorts (stationsWithoutPort db) db))))"
proof (intro conjI)
  show "getNextAvailablePort fault db = Inr p \<longleftrightarrow>
      fault \<noteq> Some 0 \<and> BASE_STREAM_PORT \<le> p \<and> p \<le> MAX_STREAM_PORT
        \<and> p \<notin> set (usedPorts db)
        \<and> (\<forall>q. BASE_STREAM_PORT \<le> q \<and> q < p \<longrightarrow> q \<in> set (usedPorts db))"
    by (simp add: getNextAvailablePort_def scanPorts_lowest)
  show "getNextAvailablePort fault db = Inl NoAvailablePorts \<longleftrightarrow>
      fault \<noteq> Some 0
        \<and> (\<forall>q. BASE_STREAM_PORT \<le> q \<and> q \<le> MAX_STREAM_PORT \<longrightarrow> q \<in> set (usedPorts db))"
    by (simp add: getNextAvailablePort_def scanPorts_exhausted)
  show "getNextAvailablePort fault db = Inr p \<and> distinct (usedPorts db) \<longrightarrow>
        distinct (usedPorts (insertStation row p db))"
    by (auto simp: getNextAvailablePort_def scanPorts_lowest usedPorts_def leased_insertStation
        split: if_splits)
  show "distinct (map s_id (audio_stations db)) \<and> distinct (usedPorts db) \<longrightarrow>
        distinct (usedPorts (snd (assignPorts (stationsWithoutPort db) db)))"
    by (simp add: assignPorts_distinct)
qed

lemma usedPorts_exDb: "usedPorts exDb = [8001, 8003]"
  by (simp add: usedPorts_def exDb_def exStation_def)

lemma usedPorts_exFullDb:
  "set (usedPorts exFullDb) = {BASE_STREAM_PORT..MAX_STREAM_PORT}"
  by (simp add: usedPorts_def exFullDb_def map_filter_def comp_def)

theorem getNextAvailablePort_lowest_free_witness:
  "getNextAvailablePort None exDb = Inr 8002
   \<and> distinct (usedPorts (insertStation exStation 8002 exDb))
   \<and> distinct (usedPorts (snd (assignPorts (stationsWithoutPort exDb) exDb)))
   \<and> getNextAvailablePort None exFullDb = Inl NoAvailablePorts"
proof -
  have below: "\<forall>q::int. 8001 \<le> q \<and> q < 8002 \<longrightarrow> q = 8001 \<or> q = 8003"
    by presburger
  have ids: "distinct (map s_id (audio_stations exDb))"
    by (simp add: exDb_def exStation_def)
  have got: "getNextAvailablePort None exDb = Inr 8002"
    using getNextAvailablePort_lowest_free [of None exDb 8002] below
    by (simp add: usedPorts_exDb BASE_STREAM_PORT_def MAX_STREAM_PORT_def)
  have full: "getNextAvailablePort None exFullDb = Inl NoAvailablePorts"
    using getNextAvailablePort_lowest_free [of None exFullDb]
    by (simp add: usedPorts_exFullDb)
  from got ids full getNextAvailablePort_lowest_free [of None exDb 8002 exStation]
  show ?thesis by (simp add: usedPorts_exDb)
qed

section \<open>Icecast source authentication\<close>

text \<open>Mount points are unique, so the lookup finds the one station of the mount.\<close>

lemma unique_mount_lookup:
  assumes "distinct (map s_mount_point rows)"
  shows "(\<exists>s \<in> set rows. s_mount_point s = m \<and> Q s) \<longleftrightarrow>
         (case filter (\<lambda>s. s_mount_point s = m) rows of
            [] \<Rightarrow> False | station # _ \<Rightarrow> Q station)"
proof (cases "filter (\<lambda>s. s_mount_point s = m) rows")
  case Nil
  then have "\<forall>s \<in> set rows. s_mount_point s \<noteq> m"
    by (simp add: filter_empty_conv)
  with Nil show ?thesis by auto
next
  case (Cons station rest)
  then have "station \<in> set (filter (\<lambda>s. s_mount_point s = m) rows)"
    by simp
  then have st: "station \<in> set rows" "s_mount_point station = m"
    by auto
  from assms have "inj_on s_mount_point (set rows)" by (simp add: distinct_map)
  with st have uniq: "\<And>s. s \<in> set rows \<Longrightarrow> s_mount_point s = m \<Longrightarrow> s = station"
    by (metis inj_onD)
  have "(\<exists>s \<in> set rows. s_mount_point s = m \<and> Q s) \<longleftrightarrow> Q station"
    using st uniq by blast
  with Cons show ?thesis by simp
qed

text \<open>
  What the endpoint answers, mount points being unique (the table's constraint): status 200,
  an empty body and the one header \<^verbatim>\<open>icecast-auth-user\<close>, which is \<^verbatim>\<open>1\<close> exactly when the
  mount has a \<^verbatim>\<open>replace\<close> method or is missing, the lookup does not throw, the mount without
  its leading slash is the mount point of a station, and the password is strictly equal to
  that station's source password column or is the global source password.
\<close>

lemma icecast_auth_answer:
  assumes "distinct (map s_mount_point (audio_stations db))"
  shows "icecast_auth gpw fault db req =
     \<lparr>r_status = 200,
      r_headers = [(''icecast-auth-user'',
         if q_mount req \<noteq> Other \<and> fault \<noteq> Some 0 \<and>
            (\<exists>s \<in> set (audio_stations db).
               s_mount_point s = stripLeadingSlash (textOf (q_mount req)) \<and>
               (strictEquals (q_pass req) (s_source_password s) \<or> q_pass req = Text gpw))
         then ''1'' else ''0'')],
      r_body = Send []\<rparr>"
  unfolding unique_mount_lookup [OF assms]
  by (simp add: icecast_auth_def authHeader_def split: list.split)

text \<open>
  C10. The endpoint answers 200 and carries its decision in the header, but the header is
  not \<^verbatim>\<open>0\<close> in every case in which no password matches. The station on the mount \<open>talk\<close> has
  no source password stored, the request has the JSON body
  \<^verbatim>\<open>{mount: '/talk', user: 'source', pass: null}\<close>, and \<^verbatim>\<open>pass === station.source_password\<close>
  holds of \<^verbatim>\<open>null\<close> and \<^verbatim>\<open>null\<close>: the header is \<^verbatim>\<open>1\<close>, with no password presented.
\<close>

theorem icecast_auth_accepts_null_password:
  "map s_source_password
       (filter (\<lambda>s. s_mount_point s = ''talk'') (audio_stations exDbNoPassword)) = [None]
   \<and> q_pass exNullAuth = Null
   \<and> icecast_auth ''streaming_source_123'' None exDbNoPassword exNullAuth
       = \<lparr>r_status = 200, r_headers = [(''icecast-auth-user'', ''1'')], r_body = Send []\<rparr>"
  by code_simp

section \<open>Reconciliation\<close>

subsection \<open>The known-active set\<close>

lemma handleStreamStart_known [simp]:
  "knownActiveStreams (handleStreamStart env k w) = knownActiveStreams w"
  by (simp add: handleStreamStart_def Let_def publish_def setStreamState_def split: list.split)

lemma handleStreamEnd_known [simp]:
  "knownActiveStreams (handleStreamEnd env k w) = knownActiveStreams w"
  by (simp add: handleStreamEnd_def Let_def publish_def setStreamState_def split: list.split)

lemma startLoop_known:
  "set (knownActiveStreams (startLoop io keys w)) = set (knownActiveStreams w) \<union> set keys"
  by (induction keys arbitrary: w) (auto simp: Let_def Set_has_def Set_add_def)

lemma endLoop_known:
  "knownActiveStreams (endLoop io active keys w) =
     filter (\<lambda>y. \<not> (y \<in> set keys \<and> y \<notin> set active)) (knownActiveStreams w)"
proof (induction keys arbitrary: w)
  case Nil
  then show ?case by simp
next
  case (Cons k keys)
  show ?case
    by (auto simp: Cons.IH Let_def Set_has_def Set_delete_def intro!: filter_cong)
qed

lemma startLoop_noop:
  "set keys \<subseteq> set (knownActiveStreams w) \<Longrightarrow> startLoop io keys w = w"
  by (induction keys arbitrary: w) (auto simp: Set_has_def)

lemma endLoop_noop:
  "set keys \<subseteq> set active \<Longrightarrow> endLoop io active keys w = w"
  by (induction keys arbitrary: w) (auto simp: Set_has_def)

text \<open>After a cycle that got the origin's list, the known keys are the active keys.\<close>

lemma sync_known:
  "set (knownActiveStreams (syncStreamStatus io (SrsReply 0 ss) w)) = set (activeStreamKeys ss)"
  by (auto simp: syncStreamStatus_def Let_def endLoop_known startLoop_known)

text \<open>
  C5. A second reconciliation cycle, run on the outcome of a cycle that got the origin's
  list and handed the same set of active keys, changes nothing: it publishes no
  notification, writes no row, and leaves the current-state records and the known keys as
  they are, whatever its handler calls would have met.
\<close>

theorem syncStreamStatus_idempotent:
  assumes "set (activeStreamKeys ss2) = set (activeStreamKeys ss1)"
  shows "syncStreamStatus io2 (SrsReply 0 ss2) (syncStreamStatus io1 (SrsReply 0 ss1) w)
           = syncStreamStatus io1 (SrsReply 0 ss1) w"
proof -
  let ?w1 = "syncStreamStatus io1 (SrsReply 0 ss1) w"
  have k: "set (knownActiveStreams ?w1) = set (activeStreamKeys ss2)"
    using assms by (simp add: sync_known)
  then have a: "startLoop io2 (activeStreamKeys ss2) ?w1 = ?w1"
    by (simp add: startLoop_noop)
  have b: "endLoop io2 (activeStreamKeys ss2) (knownActiveStreams ?w1) ?w1 = ?w1"
    using k by (simp add: endLoop_noop)
  show ?thesis
    unfolding syncStreamStatus_def [of io2] using a b by (simp add: Let_def)
qed

theorem syncStreamStatus_idempotent_witness:
  "syncStreamStatus (exEnv 200)
       (SrsReply 0 [\<lparr>srs_name = ''abc'', srs_publish_active = Some True\<rparr>,
                    \<lparr>srs_name = ''idle.m3u8'', srs_publish_active = None\<rparr>])
       (syncStreamStatus (exEnv 100) exReply exWorld)
     = syncStreamStatus (exEnv 100) exReply exWorld
   \<and> published (syncStreamStatus (exEnv 100) exReply exWorld) =
       [(''stream:start'',
         [(''streamId'', JStr ''42''), (''streamKey'', JStr ''abc''),
          (''userId'', JStr ''u-1''), (''recordingEnabled'', JBool False)])]
   \<and> knownActiveStreams (syncStreamStatus (exEnv 100) exReply exWorld) = [''abc'']"
proof -
  have k1: "activeStreamKeys [\<lparr>srs_name = ''abc.m3u8'', srs_publish_active = Some True\<rparr>] = [''abc'']"
    by code_simp
  have k2: "activeStreamKeys [\<lparr>srs_name = ''abc'', srs_publish_active = Some True\<rparr>,
                              \<lparr>srs_name = ''idle.m3u8'', srs_publish_active = None\<rparr>] = [''abc'']"
    by code_simp
  have same: "syncStreamStatus (exEnv 200)
       (SrsReply 0 [\<lparr>srs_name = ''abc'', srs_publish_active = Some True\<rparr>,
                    \<lparr>srs_name = ''idle.m3u8'', srs_publish_active = None\<rparr>])
       (syncStreamStatus (exEnv 100) exReply exWorld)
     = syncStreamStatus (exEnv 100) exReply exWorld"
    unfolding exReply_def
    by (rule syncStreamStatus_idempotent) (simp add: k1 k2)
  have pub: "published (syncStreamStatus (exEnv 100) exReply exWorld) =
       [(''stream:start'',
         [(''streamId'', JStr ''42''), (''streamKey'', JStr ''abc''),
          (''userId'', JStr ''u-1''), (''recordingEnabled'', JBool False)])]"
    by code_simp
  have known: "knownActiveStreams (syncStreamStatus (exEnv 100) exReply exWorld) = [''abc'']"
    by code_simp
  from same pub known show ?thesis by blast
qed

text \<open>
  C8. A cycle whose request throws, whose response is not OK, whose body cannot be decoded
  or whose reply carries a code other than 0 leaves everything as it was: the known keys,
  the rows, the current-state records and the notifications published.
\<close>

theorem syncStreamStatus_failed_cycle:
  assumes "response = FetchThrows \<or> response = ResponseNotOk \<or> response = DecodeThrows
           \<or> (\<exists>code ss. response = SrsReply code ss \<and> code \<noteq> 0)"
  shows "syncStreamStatus io response w = w"
  using assms by (auto simp: syncStreamStatus_def)

theorem syncStreamStatus_failed_cycle_witness:
  "syncStreamStatus (exEnv 200) FetchThrows exLiveWorld = exLiveWorld
   \<and> syncStreamStatus (exEnv 200) ResponseNotOk exLiveWorld = exLiveWorld
   \<and> syncStreamStatus (exEnv 200) DecodeThrows exLiveWorld = exLiveWorld
   \<and> syncStreamStatus (exEnv 200) (SrsReply 100 []) exLiveWorld = exLiveWorld
   \<and> knownActiveStreams exLiveWorld = [''abc'']"
proof -
  have 1: "syncStreamStatus (exEnv 200) FetchThrows exLiveWorld = exLiveWorld"
    by (rule syncStreamStatus_failed_cycle) simp
  have 2: "syncStreamStatus (exEnv 200) ResponseNotOk exLiveWorld = exLiveWorld"
    by (rule syncStreamStatus_failed_cycle) simp
  have 3: "syncStreamStatus (exEnv 200) DecodeThrows exLiveWorld = exLiveWorld"
    by (rule syncStreamStatus_failed_cycle) simp
  have 4: "syncStreamStatus (exEnv 200) (SrsReply 100 []) exLiveWorld = exLiveWorld"
    by (rule syncStreamStatus_failed_cycle) simp
  have 5: "knownActiveStreams exLiveWorld = [''abc'']"
    by (simp add: exLiveWorld_def)
  from 1 2 3 4 5 show ?thesis by blast
qed

subsection \<open>The actual-start timestamp\<close>














lemma markLive_key [simp]: "st_stream_key (markLive n r) = st_stream_key r"
  by (simp add: markLive_def)

lemma markEnded_key [simp]: "st_stream_key (markEnded n r) = st_stream_key r"
  by (simp add: markEnded_def)






subsection \<open>The end of a stream\<close>









lemma fold_end_known [simp]:
  "knownActiveStreams (fold (\<lambda>k. handleStreamEnd (io k) k) ks w) = knownActiveStreams w"
  by (induction ks arbitrary: w) simp_all








section \<open>Auto DJ and live DJ\<close>

lemma Map_has_delete: "Map_has (Map_delete m k) x = (x \<noteq> k \<and> Map_has m x)"
  by (induction m) (auto simp: Map_has_def Map_delete_def)

lemma Map_has_get: "Map_has m k = (Map_get m k \<noteq> None)"
  by (simp add: Map_has_def Map_get_def)

lemma list_ex_Map_set: "list_ex P (Map_set m k v) \<Longrightarrow> P (k, v) \<or> list_ex P m"
  by (induction m) (auto split: if_splits)

lemma list_ex_Map_set_new: "P (k, v) \<Longrightarrow> list_ex P (Map_set m k v)"
  by (induction m) auto

lemma list_ex_filter: "list_ex P (filter Q m) \<Longrightarrow> list_ex P m"
  by (auto simp: list_ex_iff)

text \<open>A step that starts no process and records no connection keeps mutual exclusion.\<close>

lemma mutualExclusion_shrinks:
  assumes "mutualExclusion reg x"
    and "isRunning reg' x \<Longrightarrow> isRunning reg x"
    and "hasLiveDJ reg' x \<Longrightarrow> hasLiveDJ reg x"
  shows "mutualExclusion reg' x"
  using assms by (auto simp: mutualExclusion_def)

lemma isRunning_stop: "isRunning (stopAutoDJ s reg) x = (x \<noteq> s \<and> isRunning reg x)"
proof (cases "Map_get (autoDJProcesses reg) s")
  case None
  then have "\<not> Map_has (autoDJProcesses reg) s" by (simp add: Map_has_get)
  with None show ?thesis by (auto simp: isRunning_def stopAutoDJ_def)
next
  case (Some p)
  then show ?thesis by (simp add: isRunning_def stopAutoDJ_def Map_has_delete)
qed

lemma hasLiveDJ_stop: "hasLiveDJ (stopAutoDJ s reg) x = hasLiveDJ reg x"
  by (simp add: hasLiveDJ_def stopAutoDJ_def split: option.splits)

lemma stop_keeps: "mutualExclusion reg x \<Longrightarrow> mutualExclusion (stopAutoDJ s reg) x"
  by (erule mutualExclusion_shrinks) (simp_all add: isRunning_stop hasLiveDJ_stop)

lemma disconnect_registry:
  "isRunning (snd (dj_disconnect fault db req reg)) x = isRunning reg x"
  "hasLiveDJ (snd (dj_disconnect fault db req reg)) x \<Longrightarrow> hasLiveDJ reg x"
  by (auto simp: dj_disconnect_def isRunning_def hasLiveDJ_def Map_delete_def Let_def
      dest: list_ex_filter split: option.splits list.splits if_splits)

lemma disconnect_keeps:
  "mutualExclusion reg x \<Longrightarrow> mutualExclusion (snd (dj_disconnect fault db req reg)) x"
  by (erule mutualExclusion_shrinks) (simp_all add: disconnect_registry)

lemma station_stop_registry:
  "isRunning (snd (station_stop fault db userId userRole s reg)) x \<Longrightarrow> isRunning reg x"
  "hasLiveDJ (snd (station_stop fault db userId userRole s reg)) x \<Longrightarrow> hasLiveDJ reg x"
proof -
  have a: "\<And>r. isRunning
        (r\<lparr>liveDJConnections := filter (\<lambda>e. stationId (snd e) \<noteq> s) (liveDJConnections r)\<rparr>) x
        = isRunning r x"
    by (simp add: isRunning_def)
  have b: "\<And>r. hasLiveDJ
        (r\<lparr>liveDJConnections := filter (\<lambda>e. stationId (snd e) \<noteq> s) (liveDJConnections r)\<rparr>) x
        \<Longrightarrow> hasLiveDJ r x"
    by (auto simp: hasLiveDJ_def dest: list_ex_filter)
  show "isRunning (snd (station_stop fault db userId userRole s reg)) x \<Longrightarrow> isRunning reg x"
    by (auto simp: station_stop_def Let_def a isRunning_stop split: option.splits if_splits)
  show "hasLiveDJ (snd (station_stop fault db userId userRole s reg)) x \<Longrightarrow> hasLiveDJ reg x"
    by (auto simp: station_stop_def Let_def hasLiveDJ_stop dest!: b
        split: option.splits if_splits)
qed

lemma station_stop_keeps:
  "mutualExclusion reg x \<Longrightarrow>
   mutualExclusion (snd (station_stop fault db userId userRole s reg)) x"
  by (erule mutualExclusion_shrinks) (auto dest: station_stop_registry)

lemma exit_keeps: "mutualExclusion reg x \<Longrightarrow> mutualExclusion (ffmpegExit s reg) x"
  by (erule mutualExclusion_shrinks)
     (simp_all add: ffmpegExit_def isRunning_def hasLiveDJ_def Map_has_delete)

lemma record_live:
  assumes "mutualExclusion reg1 x" and "\<not> isRunning reg1 s"
  shows "mutualExclusion
           (reg1\<lparr>liveDJConnections :=
                   Map_set (liveDJConnections reg1) m \<lparr>stationId = s, djId = j\<rparr>\<rparr>) x"
proof -
  let ?reg2 = "reg1\<lparr>liveDJConnections :=
                      Map_set (liveDJConnections reg1) m \<lparr>stationId = s, djId = j\<rparr>\<rparr>"
  have run: "isRunning ?reg2 x = isRunning reg1 x" by (simp add: isRunning_def)
  have "hasLiveDJ ?reg2 x \<Longrightarrow> x = s \<or> hasLiveDJ reg1 x"
    by (auto simp: hasLiveDJ_def dest!: list_ex_Map_set)
  with assms run show ?thesis by (auto simp: mutualExclusion_def)
qed

text \<open>
  The connect keeps it when the station of the DJ that the query finds first has
  \<^verbatim>\<open>auto_dj_enabled\<close> set or has no Auto DJ process registered.
\<close>

lemma auth_dj_keeps:
  assumes inv: "\<forall>sid. mutualExclusion reg sid"
    and flag: "\<And>mount dj rest. b_mount req = Some mount \<Longrightarrow>
                 djQuery db (remove1 CHR ''/'' mount) (b_pass req) = dj # rest \<Longrightarrow>
                 truthy (s_auto_dj_enabled (snd dj)) \<or> \<not> isRunning reg (s_id (snd dj))"
  shows "mutualExclusion (snd (auth_dj gpw fault db req reg)) x"
proof (cases "b_mount req")
  case None
  with inv show ?thesis by (simp add: auth_dj_def)
next
  case (Some mount)
  show ?thesis
  proof (cases "fault = Some 0")
    case True
    with Some inv show ?thesis by (simp add: auth_dj_def)
  next
    case False
    show ?thesis
    proof (cases "djQuery db (remove1 CHR ''/'' mount) (b_pass req)")
      case Nil
      with Some False inv show ?thesis by (simp add: auth_dj_def)
    next
      case (Cons dj rest)
      let ?reg1 = "if truthy (s_auto_dj_enabled (snd dj))
                   then stopAutoDJ (s_id (snd dj)) reg else reg"
      have m1: "mutualExclusion ?reg1 x" using inv by (simp add: stop_keeps)
      have nr: "\<not> isRunning ?reg1 (s_id (snd dj))"
        using flag [OF Some Cons] by (auto simp: isRunning_stop)
      have "snd (auth_dj gpw fault db req reg) =
          ?reg1\<lparr>liveDJConnections := Map_set (liveDJConnections ?reg1) mount
                    \<lparr>stationId = s_id (snd dj), djId = d_id (fst dj)\<rparr>\<rparr>"
        using Some False Cons by (simp add: auth_dj_def Let_def)
      with record_live [OF m1 nr] show ?thesis by simp
    qed
  qed
qed

text \<open>\<^verbatim>\<open>startAutoDJ\<close> keeps it for a station that has no live DJ connection.\<close>

lemma Map_has_set: "Map_has (Map_set m k v) x = (x = k \<or> Map_has m x)"
  by (induction m) (auto simp: Map_has_def split: if_splits)

lemma start_keeps:
  assumes "mutualExclusion reg x" and "\<not> hasLiveDJ reg s"
  shows "mutualExclusion (startAutoDJ fault pid db s reg) x"
proof -
  have live: "hasLiveDJ (startAutoDJ fault pid db s reg) x = hasLiveDJ reg x"
    by (simp add: startAutoDJ_def hasLiveDJ_def split: list.split)
  have run: "isRunning (startAutoDJ fault pid db s reg) x \<Longrightarrow> x = s \<or> isRunning reg x"
    by (auto simp: startAutoDJ_def isRunning_def Map_has_set split: list.splits if_splits)
  from assms live run show ?thesis by (auto simp: mutualExclusion_def)
qed

lemma exRunning_exclusive: "\<forall>sid. mutualExclusion exRunning sid"
  by (simp add: mutualExclusion_def hasLiveDJ_def exRunning_def emptyRegistry_def)

lemma exLive_exclusive: "\<forall>sid. mutualExclusion exLive sid"
  by (simp add: mutualExclusion_def isRunning_def Map_has_def exLive_def emptyRegistry_def)

text \<open>
  C1. Mutual exclusion does not hold in every registry that the operations reach from the
  empty one, and two operations break it. The Auto DJ of \<open>st-1\<close> runs and the station's
  settings are saved with \<^verbatim>\<open>auto_dj_enabled\<close> false: the accepted connect of its DJ skips
  \<^verbatim>\<open>stopAutoDJ\<close> and leaves the process registered beside the connection. The DJ of \<open>st-1\<close>
  is connected: \<^verbatim>\<open>startAutoDJ\<close> registers a process beside the connection.
\<close>

theorem mutual_exclusion_broken:
  "startAutoDJ None 4242 exDb ''st-1'' emptyRegistry = exRunning
   \<and> (\<forall>sid. mutualExclusion exRunning sid)
   \<and> \<not> mutualExclusion
         (snd (auth_dj ''streaming_source_123'' None exDbDisabled exDjConnect exRunning)) ''st-1''
   \<and> snd (auth_dj ''streaming_source_123'' None exDb exDjConnect emptyRegistry) = exLive
   \<and> (\<forall>sid. mutualExclusion exLive sid)
   \<and> \<not> mutualExclusion (startAutoDJ None 4243 exDb ''st-1'' exLive) ''st-1''"
proof -
  have 1: "startAutoDJ None 4242 exDb ''st-1'' emptyRegistry = exRunning"
    by code_simp
  have 2: "\<not> mutualExclusion
         (snd (auth_dj ''streaming_source_123'' None exDbDisabled exDjConnect exRunning)) ''st-1''"
    by code_simp
  have 3: "snd (auth_dj ''streaming_source_123'' None exDb exDjConnect emptyRegistry) = exLive"
    by code_simp
  have 4: "\<not> mutualExclusion (startAutoDJ None 4243 exDb ''st-1'' exLive) ''st-1''"
    by code_simp
  from 1 2 3 4 exRunning_exclusive exLive_exclusive show ?thesis by blast
qed

text \<open>
  C2. The connect handler stops the Auto DJ under \<^verbatim>\<open>if (dj.auto_dj_enabled)\<close>, a test of the
  station's setting and not of the registry. The Auto DJ of \<open>st-1\<close> runs, its settings were
  saved with \<^verbatim>\<open>auto_dj_enabled\<close> false, and its DJ's connect is accepted with the process
  neither signalled nor removed.
\<close>

theorem live_connect_keeps_disabled_autodj:
  "isRunning exRunning ''st-1''
   \<and> fst (auth_dj ''streaming_source_123'' None exDbDisabled exDjConnect exRunning)
       = sendStatus 200 ''OK''
   \<and> isRunning (snd (auth_dj ''streaming_source_123'' None exDbDisabled exDjConnect exRunning))
       ''st-1''
   \<and> hasLiveDJ (snd (auth_dj ''streaming_source_123'' None exDbDisabled exDjConnect exRunning))
       ''st-1''
   \<and> killed (snd (auth_dj ''streaming_source_123'' None exDbDisabled exDjConnect exRunning)) = []"
  by code_simp

text \<open>
  C3. The restart set by a live disconnect is \<^verbatim>\<open>startAutoDJ\<close> and nothing else, and
  \<^verbatim>\<open>startAutoDJ\<close> does not look at the live connections. The DJ of \<open>st-1\<close> disconnects, which
  sets the restart for 2000 ms later, and connects again before it fires: the restart
  registers an Auto DJ process for the station while the connection is there.
\<close>

theorem restart_ignores_live_connection:
  "timers (snd (dj_disconnect None exDb exDisconnect exLive)) = [(2000, StartAutoDJ ''st-1'')]
   \<and> hasLiveDJ
       (snd (auth_dj ''streaming_source_123'' None exDb exDjConnect
          (snd (dj_disconnect None exDb exDisconnect exLive)))) ''st-1''
   \<and> isRunning
       (runTimer None None 4243 exDb (StartAutoDJ ''st-1'')
          (snd (auth_dj ''streaming_source_123'' None exDb exDjConnect
             (snd (dj_disconnect None exDb exDisconnect exLive))))) ''st-1''
   \<and> hasLiveDJ
       (runTimer None None 4243 exDb (StartAutoDJ ''st-1'')
          (snd (auth_dj ''streaming_source_123'' None exDb exDjConnect
             (snd (dj_disconnect None exDb exDisconnect exLive))))) ''st-1''"
  by code_simp

lemma djQuery_no_dj:
  "\<forall>d \<in> set (station_djs db). d_stream_password d \<noteq> pw \<Longrightarrow> djQuery db mp (Some pw) = []"
  by (induction "station_djs db" arbitrary: db) (auto simp: djQuery_def)

text \<open>
  C9. A connect with the global source password, which is no DJ's stream password: when the
  DJ query succeeds the connect is answered 200, and in every case the registry is left as
  it was, so no Auto DJ process is signalled or removed and no live DJ connection is
  recorded. The Icecast source-authentication endpoint, which has no access to the registry,
  accepts the same connect when its lookup succeeds and the mount is a station's.
\<close>

theorem fallback_credential_no_preemption:
  assumes "b_mount req = Some mount" and "b_pass req = Some gpw"
    and "\<forall>d \<in> set (station_djs db). d_stream_password d \<noteq> gpw"
  shows "(fault \<noteq> Some 0 \<longrightarrow> auth_dj gpw fault db req reg = (sendStatus 200 ''OK'', reg))
       \<and> snd (auth_dj gpw fault db req reg) = reg
       \<and> (fault \<noteq> Some 0
            \<and> (\<exists>st \<in> set (audio_stations db).
                  s_mount_point st = stripLeadingSlash (Some mount)) \<longrightarrow>
            icecast_auth gpw fault db
                \<lparr>q_mount = Text mount, q_user = user, q_pass = Text gpw\<rparr> = authHeader ''1'')"
proof -
  have q: "djQuery db (remove1 CHR ''/'' mount) (b_pass req) = []"
    using assms by (simp add: djQuery_no_dj)
  have a: "fault \<noteq> Some 0 \<longrightarrow> auth_dj gpw fault db req reg = (sendStatus 200 ''OK'', reg)"
    using assms q by (simp add: auth_dj_def)
  have b: "snd (auth_dj gpw fault db req reg) = reg"
    using assms q by (simp add: auth_dj_def)
  have c: "fault \<noteq> Some 0
            \<and> (\<exists>st \<in> set (audio_stations db).
                  s_mount_point st = stripLeadingSlash (Some mount)) \<longrightarrow>
            icecast_auth gpw fault db
                \<lparr>q_mount = Text mount, q_user = user, q_pass = Text gpw\<rparr> = authHeader ''1''"
  proof
    assume h: "fault \<noteq> Some 0
            \<and> (\<exists>st \<in> set (audio_stations db).
                  s_mount_point st = stripLeadingSlash (Some mount))"
    then have "filter (\<lambda>s. s_mount_point s = stripLeadingSlash (Some mount))
                 (audio_stations db) \<noteq> []"
      by (auto simp: filter_empty_conv)
    then obtain station rest where
      "filter (\<lambda>s. s_mount_point s = stripLeadingSlash (Some mount)) (audio_stations db)
         = station # rest"
      by (cases "filter (\<lambda>s. s_mount_point s = stripLeadingSlash (Some mount))
                   (audio_stations db)") auto
    with h show "icecast_auth gpw fault db
                \<lparr>q_mount = Text mount, q_user = user, q_pass = Text gpw\<rparr> = authHeader ''1''"
      by (simp add: icecast_auth_def textOf_def)
  qed
  from a b c show ?thesis by blast
qed

theorem fallback_credential_no_preemption_witness:
  "auth_dj ''streaming_source_123'' None exDb exSourceConnect exRunning
     = (sendStatus 200 ''OK'', exRunning)
   \<and> isRunning exRunning ''st-1''
   \<and> icecast_auth ''streaming_source_123'' None exDb exSourceAuth = authHeader ''1''"
proof -
  have m: "b_mount exSourceConnect = Some ''/jazz-fm''"
    and p: "b_pass exSourceConnect = Some ''streaming_source_123''"
    by (simp_all add: exSourceConnect_def)
  have d: "\<forall>d \<in> set (station_djs exDb). d_stream_password d \<noteq> ''streaming_source_123''"
    by (simp add: exDb_def)
  have s: "\<exists>st \<in> set (audio_stations exDb).
             s_mount_point st = stripLeadingSlash (Some ''/jazz-fm'')"
    by (simp add: exDb_def exStation_def stripLeadingSlash_def)
  have r: "isRunning exRunning ''st-1''"
    by code_simp
  from fallback_credential_no_preemption [OF m p d, of None exRunning "Text ''source''"] s r
  show ?thesis by (simp add: exSourceAuth_def)
qed


end
